theory Spec2Isabelle
  imports Main "HOL-Library.Word"
begin

section \<open>The analysis graph nodes of paddle/fluid/inference/analysis/node.h\<close>

text \<open>
  Conventions of the embedding.
  \<^item> A C++ member \<^verbatim>\<open>x_\<close> is the record field \<open>x_m\<close> (a name may not end in an underscore);
    \<open>class_m\<close> is the class that the object was constructed as.
  \<^item> \<^verbatim>\<open>void *\<close> and \<^verbatim>\<open>Node *\<close> are addresses, natural numbers; the null pointer is \<open>0\<close>.
    A \<^verbatim>\<open>Node *\<close> handed out by a \<^verbatim>\<open>NodeMap\<close> is the position of the node in \<^verbatim>\<open>nodes_\<close>
    (the nodes are owned through \<^verbatim>\<open>unique_ptr\<close>, so they never move).
  \<^item> \<^verbatim>\<open>size_t\<close> is a 64-bit word, \<^verbatim>\<open>int\<close> is a mathematical integer (the header does no
    arithmetic on it), \<^verbatim>\<open>float\<close> is its 32-bit pattern (only \<^verbatim>\<open>float()\<close>, all bits zero, occurs).
  \<^item> A raised exception is the \<open>Inl\<close> branch of a result. Every operation below raises before
    it has written anything, so the state after an exception is the state before the call.
\<close>

type_synonym pointer = nat
type_synonym size_t = "64 word"

definition nullptr :: pointer where
  "nullptr = 0"

datatype error =
    TypeMismatch      \<comment> \<open>\<^verbatim>\<open>PADDLE_ENFORCE(type_index_ == typeid(T), "fetch error type")\<close> fails\<close>
  | bad_get           \<comment> \<open>\<^verbatim>\<open>boost::get<T>\<close> on a variant that holds another alternative\<close>
  | OutOfRange        \<comment> \<open>a lookup in the \<^verbatim>\<open>NodeMap\<close> with an identity that was never assigned\<close>
  | NotSupported      \<comment> \<open>\<^verbatim>\<open>NodeMap::Create\<close> asked for a kind that has no node class\<close>
  | InvalidDowncast   \<comment> \<open>\<^verbatim>\<open>*dynamic_cast<Subclass *>(this)\<close> on a node of another class\<close>

subsection \<open>\<^verbatim>\<open>AnyAttr\<close>\<close>

text \<open>The alternatives of \<^verbatim>\<open>boost::variant<bool, float, int32_t, int64_t, void *, std::string>\<close>,
  in that order, and the types \<^verbatim>\<open>T\<close> that \<^verbatim>\<open>As<T>\<close> is instantiated at.\<close>

datatype attr_type = T_bool | T_float | T_int32_t | T_int64_t | T_void_ptr | T_string

datatype any_t =
    any_bool bool
  | any_float "32 word"
  | any_int32_t "32 word"
  | any_int64_t "64 word"
  | any_void_ptr pointer
  | any_string string

text \<open>The alternative that a variant value holds (\<^verbatim>\<open>which()\<close>).\<close>

fun which :: "any_t \<Rightarrow> attr_type" where
  "which (any_bool b) = T_bool"
| "which (any_float f) = T_float"
| "which (any_int32_t i) = T_int32_t"
| "which (any_int64_t i) = T_int64_t"
| "which (any_void_ptr p) = T_void_ptr"
| "which (any_string s) = T_string"

text \<open>The value-initialised \<^verbatim>\<open>T()\<close>.\<close>

fun T_default :: "attr_type \<Rightarrow> any_t" where
  "T_default T_bool = any_bool False"
| "T_default T_float = any_float 0"
| "T_default T_int32_t = any_int32_t 0"
| "T_default T_int64_t = any_int64_t 0"
| "T_default T_void_ptr = any_void_ptr nullptr"
| "T_default T_string = any_string []"

text \<open>\<^verbatim>\<open>std::type_index\<close>: either \<^verbatim>\<open>typeid(AnyAttr)\<close>, the mark of a slot that was never
  accessed with a type, or \<^verbatim>\<open>typeid(T)\<close>.\<close>

datatype type_index = typeid_AnyAttr | typeid attr_type

record AnyAttr =
  any_data_m :: any_t
  type_index_m :: type_index

text \<open>A default-constructed \<^verbatim>\<open>AnyAttr\<close>: the variant holds its first alternative,
  value-initialised, and \<^verbatim>\<open>type_index_{typeid(AnyAttr)}\<close>.\<close>

definition AnyAttr_init :: AnyAttr where
  "AnyAttr_init = \<lparr>any_data_m = any_bool False, type_index_m = typeid_AnyAttr\<rparr>"

text \<open>\<^verbatim>\<open>boost::get<T>(any_data_)\<close>.\<close>

definition boost_get :: "attr_type \<Rightarrow> any_t \<Rightarrow> error + any_t" where
  "boost_get T v = (if which v = T then Inr v else Inl bad_get)"

text \<open>\<^verbatim>\<open>AnyAttr::As<T>()\<close>. The result is the attribute after the call together with the
  value that the returned reference \<^verbatim>\<open>T &\<close> denotes.\<close>

definition As :: "attr_type \<Rightarrow> AnyAttr \<Rightarrow> error + (AnyAttr \<times> any_t)" where
  "As T a =
    (if type_index_m a = typeid_AnyAttr then
       (let a' = a\<lparr>type_index_m := typeid T, any_data_m := T_default T\<rparr> in
        case boost_get T (any_data_m a') of
          Inl e \<Rightarrow> Inl e
        | Inr v \<Rightarrow> Inr (a', v))
     else if type_index_m a = typeid T then
       (case boost_get T (any_data_m a) of
          Inl e \<Rightarrow> Inl e
        | Inr v \<Rightarrow> Inr (a, v))
     else Inl TypeMismatch)"

text \<open>An assignment through the reference that \<^verbatim>\<open>As<T>()\<close> returned: a \<^verbatim>\<open>T &\<close> can only
  store a \<^verbatim>\<open>T\<close>, and it writes into \<^verbatim>\<open>any_data_\<close> and nowhere else.\<close>

definition assign :: "any_t \<Rightarrow> AnyAttr \<Rightarrow> AnyAttr" where
  "assign v a = a\<lparr>any_data_m := v\<rparr>"

subsection \<open>The attribute bag \<^verbatim>\<open>std::unordered_map<std::string, AnyAttr>\<close>\<close>

type_synonym attrs_t = "string \<rightharpoonup> AnyAttr"

text \<open>\<^verbatim>\<open>attrs_[name]\<close>: \<^verbatim>\<open>operator[]\<close> inserts a default-constructed attribute when the key
  is absent, and returns the slot.\<close>

definition attrs_index :: "string \<Rightarrow> attrs_t \<Rightarrow> attrs_t \<times> AnyAttr" where
  "attrs_index name attrs =
    (case attrs name of
       Some a \<Rightarrow> (attrs, a)
     | None \<Rightarrow> (attrs(name \<mapsto> AnyAttr_init), AnyAttr_init))"

text \<open>\<^verbatim>\<open>attrs_[name].As<T>()\<close>, the typed access that the specification calls
  \<^verbatim>\<open>get_or_init<T>(name)\<close>: the bag after the call and the value of the slot.\<close>

definition get_or_init :: "attr_type \<Rightarrow> string \<Rightarrow> attrs_t \<Rightarrow> error + (attrs_t \<times> any_t)" where
  "get_or_init T name attrs =
    (case attrs_index name attrs of
       (attrs1, a) \<Rightarrow>
         (case As T a of
            Inl e \<Rightarrow> Inl e
          | Inr (a', v) \<Rightarrow> Inr (attrs1(name \<mapsto> a'), v)))"

text \<open>\<^verbatim>\<open>attrs_[name].As<T>() = v\<close> where \<^verbatim>\<open>T\<close> is the type of \<^verbatim>\<open>v\<close>: the typed access followed
  by the assignment through the reference.\<close>

definition store :: "string \<Rightarrow> any_t \<Rightarrow> attrs_t \<Rightarrow> error + attrs_t" where
  "store name v attrs =
    (case attrs_index name attrs of
       (attrs1, a) \<Rightarrow>
         (case As (which v) a of
            Inl e \<Rightarrow> Inl e
          | Inr (a', old) \<Rightarrow> Inr (attrs1(name \<mapsto> assign v a'))))"

text \<open>The slot of \<open>name\<close> was never accessed with a type: it is absent, or it was only created
  by \<^verbatim>\<open>attr(name)\<close>.\<close>

definition untyped :: "attrs_t \<Rightarrow> string \<Rightarrow> bool" where
  "untyped attrs name =
    (case attrs name of None \<Rightarrow> True | Some a \<Rightarrow> type_index_m a = typeid_AnyAttr)"

text \<open>The accesses to a bag through \<^verbatim>\<open>attr(name)\<close> and the typed accessors: create a slot,
  read it under a type, store a value in it.\<close>

datatype access = Touch string | Fetch attr_type string | Store string any_t

fun do_access :: "access \<Rightarrow> attrs_t \<Rightarrow> error + attrs_t" where
  "do_access (Touch name) attrs = Inr (fst (attrs_index name attrs))"
| "do_access (Fetch T name) attrs =
    (case get_or_init T name attrs of Inl e \<Rightarrow> Inl e | Inr (attrs', v) \<Rightarrow> Inr attrs')"
| "do_access (Store name v) attrs = store name v attrs"


text \<open>The slot of \<open>name\<close> exists, is typed \<open>T\<close> and holds a \<open>T\<close>.\<close>

definition holds :: "attrs_t \<Rightarrow> string \<Rightarrow> attr_type \<Rightarrow> bool" where
  "holds attrs name T =
    (case attrs name of
       None \<Rightarrow> False
     | Some a \<Rightarrow> type_index_m a = typeid T \<and> which (any_data_m a) = T)"

subsection \<open>\<^verbatim>\<open>Node\<close> and its subclasses\<close>

datatype Type = kNone | kFunction | kValue | kFunctionBlock

datatype DataType = kInt32 | kInt64 | kFloat32 | kFloat64

text \<open>\<^verbatim>\<open>Device\<close> (device.h) and \<^verbatim>\<open>Dot::Attr\<close> (dot.h) are declared outside node.h: a device
  is kept as the number of its enumerator, a DOT attribute as the pair of its name and value.\<close>

type_synonym Device = nat
type_synonym Dot_Attr = "string \<times> string"

text \<open>The class an object was constructed as, with the members that the class adds to
  \<^verbatim>\<open>Node\<close>. \<^verbatim>\<open>Value\<close> leaves \<^verbatim>\<open>data_type_\<close> and \<^verbatim>\<open>device_\<close> uninitialised, which is \<open>None\<close>.\<close>

datatype Subclass =
    Node_class
  | Value_class "DataType option" "int list" "Device option"
  | Function_class string
  | FunctionBlock_class "pointer list"

record Node =
  id_m :: int
  name_m :: string
  type_m :: Type
  deleted_m :: bool
  attrs_m :: attrs_t
  inlinks :: "pointer list"
  outlinks :: "pointer list"
  class_m :: Subclass

text \<open>\<^verbatim>\<open>Node() = default\<close> with the member initialisers \<^verbatim>\<open>id_{-1}\<close>, \<^verbatim>\<open>type_{Type::kNone}\<close>,
  \<^verbatim>\<open>deleted_{false}\<close>.\<close>

definition Node_init :: Node where
  "Node_init =
    \<lparr>id_m = - 1, name_m = [], type_m = kNone, deleted_m = False, attrs_m = Map.empty,
     inlinks = [], outlinks = [], class_m = Node_class\<rparr>"

definition SetType :: "Type \<Rightarrow> Node \<Rightarrow> Node" where
  "SetType t n = n\<lparr>type_m := t\<rparr>"

definition Node_type :: "Node \<Rightarrow> Type" where
  "Node_type n = type_m n"

definition Value_init :: Node where
  "Value_init = SetType kValue (Node_init\<lparr>class_m := Value_class None [] None\<rparr>)"

definition Function_init :: Node where
  "Function_init = SetType kFunction (Node_init\<lparr>class_m := Function_class []\<rparr>)"

definition FunctionBlock_init :: Node where
  "FunctionBlock_init =
    SetType kFunctionBlock (Node_init\<lparr>class_m := FunctionBlock_class []\<rparr>)"

definition Node_id :: "Node \<Rightarrow> int" where
  "Node_id n = id_m n"

definition SetName :: "string \<Rightarrow> Node \<Rightarrow> Node" where
  "SetName s n = n\<lparr>name_m := s\<rparr>"

definition Node_name :: "Node \<Rightarrow> string" where
  "Node_name n = name_m n"

definition SetDeleted :: "Node \<Rightarrow> Node" where
  "SetDeleted n = n\<lparr>deleted_m := True\<rparr>"

definition deleted :: "Node \<Rightarrow> bool" where
  "deleted n = deleted_m n"

definition IsFunction :: "Node \<Rightarrow> bool" where
  "IsFunction n = (type_m n = kFunction)"

definition IsValue :: "Node \<Rightarrow> bool" where
  "IsValue n = (type_m n = kValue)"

definition IsFunctionBlock :: "Node \<Rightarrow> bool" where
  "IsFunctionBlock n = (type_m n = kFunctionBlock)"

text \<open>\<^verbatim>\<open>std::to_string(int)\<close>: the decimal digits, with a minus sign for a negative number.\<close>

fun to_string_nat :: "nat \<Rightarrow> string" where
  "to_string_nat n =
    (if n < 10 then [char_of (48 + n)]
     else to_string_nat (n div 10) @ [char_of (48 + n mod 10)])"

declare to_string_nat.simps [simp del]

definition to_string :: "int \<Rightarrow> string" where
  "to_string i = (if i < 0 then CHR ''-'' # to_string_nat (nat (- i)) else to_string_nat (nat i))"

text \<open>\<^verbatim>\<open>repr()\<close> is virtual; only \<^verbatim>\<open>FunctionBlock\<close> overrides it.\<close>

definition Node_repr :: "Node \<Rightarrow> string" where
  "Node_repr n = Node_name n @ ''('' @ to_string (Node_id n) @ '')''"

definition FunctionBlock_repr :: "Node \<Rightarrow> string" where
  "FunctionBlock_repr n = ''block-'' @ to_string (Node_id n)"

definition repr :: "Node \<Rightarrow> string" where
  "repr n =
    (case class_m n of
       FunctionBlock_class sg \<Rightarrow> FunctionBlock_repr n
     | _ \<Rightarrow> Node_repr n)"

text \<open>\<^verbatim>\<open>dot_attrs()\<close> is virtual; \<^verbatim>\<open>Value\<close> and \<^verbatim>\<open>Function\<close> declare overrides whose bodies are
  not in node.h, so the two bodies are parameters.\<close>

definition Node_dot_attrs :: "Node \<Rightarrow> Dot_Attr list" where
  "Node_dot_attrs n = [(''style'', ''filled'')]"

definition dot_attrs ::
    "(Node \<Rightarrow> Dot_Attr list) \<Rightarrow> (Node \<Rightarrow> Dot_Attr list) \<Rightarrow> Node \<Rightarrow> Dot_Attr list" where
  "dot_attrs Value_dot_attrs Function_dot_attrs n =
    (case class_m n of
       Value_class dt ds dv \<Rightarrow> Value_dot_attrs n
     | Function_class ft \<Rightarrow> Function_dot_attrs n
     | _ \<Rightarrow> Node_dot_attrs n)"

text \<open>\<^verbatim>\<open>attr(name)\<close>: the method is \<^verbatim>\<open>const\<close> but \<^verbatim>\<open>attrs_\<close> is \<^verbatim>\<open>mutable\<close>, so it may add a slot.\<close>

definition attr :: "string \<Rightarrow> Node \<Rightarrow> Node \<times> AnyAttr" where
  "attr name n =
    (case attrs_index name (attrs_m n) of (attrs1, a) \<Rightarrow> (n\<lparr>attrs_m := attrs1\<rparr>, a))"

text \<open>\<^verbatim>\<open>attr("pb_desc").Pointer() = pb\<close> and \<^verbatim>\<open>return attr("pb_desc").Pointer()\<close>.\<close>

definition SetPbDesc :: "pointer \<Rightarrow> Node \<Rightarrow> error + Node" where
  "SetPbDesc pb n =
    (case store ''pb_desc'' (any_void_ptr pb) (attrs_m n) of
       Inl e \<Rightarrow> Inl e
     | Inr attrs' \<Rightarrow> Inr (n\<lparr>attrs_m := attrs'\<rparr>))"

definition pb_desc :: "Node \<Rightarrow> error + (Node \<times> any_t)" where
  "pb_desc n =
    (case get_or_init T_void_ptr ''pb_desc'' (attrs_m n) of
       Inl e \<Rightarrow> Inl e
     | Inr (attrs', v) \<Rightarrow> Inr (n\<lparr>attrs_m := attrs'\<rparr>, v))"

text \<open>\<^verbatim>\<open>attr("pb_msg").String() = s\<close> and \<^verbatim>\<open>return attr("pb_msg").String()\<close>.\<close>

definition SetPbMsg :: "string \<Rightarrow> Node \<Rightarrow> error + Node" where
  "SetPbMsg s n =
    (case store ''pb_msg'' (any_string s) (attrs_m n) of
       Inl e \<Rightarrow> Inl e
     | Inr attrs' \<Rightarrow> Inr (n\<lparr>attrs_m := attrs'\<rparr>))"

definition pb_msg :: "Node \<Rightarrow> error + (Node \<times> any_t)" where
  "pb_msg n =
    (case get_or_init T_string ''pb_msg'' (attrs_m n) of
       Inl e \<Rightarrow> Inl e
     | Inr (attrs', v) \<Rightarrow> Inr (n\<lparr>attrs_m := attrs'\<rparr>, v))"

text \<open>The setters of the subclasses, reached through \<^verbatim>\<open>As<Subclass>()\<close>, which dereferences
  the result of a \<^verbatim>\<open>dynamic_cast\<close>: on a node of another class that is undefined behaviour,
  here the error \<open>InvalidDowncast\<close>.\<close>

definition SetDataType :: "DataType \<Rightarrow> Node \<Rightarrow> error + Node" where
  "SetDataType d n =
    (case class_m n of
       Value_class dt ds dv \<Rightarrow> Inr (n\<lparr>class_m := Value_class (Some d) ds dv\<rparr>)
     | _ \<Rightarrow> Inl InvalidDowncast)"

definition SetDims :: "int list \<Rightarrow> Node \<Rightarrow> error + Node" where
  "SetDims d n =
    (case class_m n of
       Value_class dt ds dv \<Rightarrow> Inr (n\<lparr>class_m := Value_class dt d dv\<rparr>)
     | _ \<Rightarrow> Inl InvalidDowncast)"

definition SetDevice :: "Device \<Rightarrow> Node \<Rightarrow> error + Node" where
  "SetDevice d n =
    (case class_m n of
       Value_class dt ds dv \<Rightarrow> Inr (n\<lparr>class_m := Value_class dt ds (Some d)\<rparr>)
     | _ \<Rightarrow> Inl InvalidDowncast)"

definition SetFuncType :: "string \<Rightarrow> Node \<Rightarrow> error + Node" where
  "SetFuncType f n =
    (case class_m n of
       Function_class ft \<Rightarrow> Inr (n\<lparr>class_m := Function_class f\<rparr>)
     | _ \<Rightarrow> Inl InvalidDowncast)"

definition set_subgraph :: "pointer list \<Rightarrow> Node \<Rightarrow> error + Node" where
  "set_subgraph g n =
    (case class_m n of
       FunctionBlock_class sg \<Rightarrow> Inr (n\<lparr>class_m := FunctionBlock_class g\<rparr>)
     | _ \<Rightarrow> Inl InvalidDowncast)"

text \<open>The slot of \<open>name\<close> is typed as a pointer and holds the null pointer.\<close>

definition null_pointer_slot :: "attrs_t \<Rightarrow> string \<Rightarrow> bool" where
  "null_pointer_slot attrs name =
    (case attrs name of
       None \<Rightarrow> False
     | Some a \<Rightarrow> type_index_m a = typeid T_void_ptr \<and> any_data_m a = any_void_ptr nullptr)"

text \<open>\<^verbatim>\<open>attr(name) = a\<close>: \<^verbatim>\<open>attr\<close> returns an \<^verbatim>\<open>AnyAttr &\<close>, and \<^verbatim>\<open>AnyAttr\<close> has the implicit public
  copy and move assignment, which overwrite \<^verbatim>\<open>any_data_\<close> and \<^verbatim>\<open>type_index_\<close> together.\<close>

definition attr_assign :: "string \<Rightarrow> AnyAttr \<Rightarrow> Node \<Rightarrow> Node" where
  "attr_assign name a n =
    (case attr name n of (n1, old) \<Rightarrow> n1\<lparr>attrs_m := (attrs_m n1)(name \<mapsto> a)\<rparr>)"

text \<open>The public operations of a node that can change it: the typed attribute accesses, the
  assignment of a whole attribute through the reference that \<^verbatim>\<open>attr\<close> returns, the setters, the
  two \<^verbatim>\<open>const\<close> getters that go through \<^verbatim>\<open>attr\<close>, and assignments to the public members
  \<^verbatim>\<open>inlinks\<close>, \<^verbatim>\<open>outlinks\<close> and \<^verbatim>\<open>subgraph\<close>. The other public members only read. (Moving an
  attribute out of a slot keeps the type of the slot and leaves it a value of that type, which
  is a state that a store reaches as well.)\<close>

datatype node_op =
    OpAttr access
  | OpAttrAssign string AnyAttr
  | OpSetPbDesc pointer
  | OpPbDesc
  | OpSetPbMsg string
  | OpPbMsg
  | OpSetDeleted
  | OpSetName string
  | OpSetType Type
  | OpSetInlinks "pointer list"
  | OpSetOutlinks "pointer list"
  | OpSetDataType DataType
  | OpSetDims "int list"
  | OpSetDevice Device
  | OpSetFuncType string
  | OpSetSubgraph "pointer list"

fun node_exec :: "node_op \<Rightarrow> Node \<Rightarrow> error + Node" where
  "node_exec (OpAttr x) n =
    (case do_access x (attrs_m n) of Inl e \<Rightarrow> Inl e | Inr attrs' \<Rightarrow> Inr (n\<lparr>attrs_m := attrs'\<rparr>))"
| "node_exec (OpAttrAssign name a) n = Inr (attr_assign name a n)"
| "node_exec (OpSetPbDesc pb) n = SetPbDesc pb n"
| "node_exec OpPbDesc n = (case pb_desc n of Inl e \<Rightarrow> Inl e | Inr (n', v) \<Rightarrow> Inr n')"
| "node_exec (OpSetPbMsg s) n = SetPbMsg s n"
| "node_exec OpPbMsg n = (case pb_msg n of Inl e \<Rightarrow> Inl e | Inr (n', v) \<Rightarrow> Inr n')"
| "node_exec OpSetDeleted n = Inr (SetDeleted n)"
| "node_exec (OpSetName s) n = Inr (SetName s n)"
| "node_exec (OpSetType t) n = Inr (SetType t n)"
| "node_exec (OpSetInlinks l) n = Inr (n\<lparr>inlinks := l\<rparr>)"
| "node_exec (OpSetOutlinks l) n = Inr (n\<lparr>outlinks := l\<rparr>)"
| "node_exec (OpSetDataType d) n = SetDataType d n"
| "node_exec (OpSetDims d) n = SetDims d n"
| "node_exec (OpSetDevice d) n = SetDevice d n"
| "node_exec (OpSetFuncType f) n = SetFuncType f n"
| "node_exec (OpSetSubgraph g) n = set_subgraph g n"

text \<open>A run of operations on one node. An operation that raises an exception leaves the node
  as it was, and the run goes on; after undefined behaviour (\<open>InvalidDowncast\<close>) nothing is
  known, and the run ends there.\<close>

fun node_run :: "node_op list \<Rightarrow> Node \<Rightarrow> error + Node" where
  "node_run [] n = Inr n"
| "node_run (f # fs) n =
    (case node_exec f n of
       Inr n' \<Rightarrow> node_run fs n'
     | Inl e \<Rightarrow> if e = InvalidDowncast then Inl e else node_run fs n)"

subsection \<open>\<^verbatim>\<open>NodeMap\<close>\<close>

record NodeMap =
  nodes_m :: "Node list"
  map_m :: "string \<rightharpoonup> pointer"

definition NodeMap_init :: NodeMap where
  "NodeMap_init = \<lparr>nodes_m = [], map_m = Map.empty\<rparr>"

definition nodes :: "NodeMap \<Rightarrow> Node list" where
  "nodes m = nodes_m m"

text \<open>\<^verbatim>\<open>size()\<close> returns \<^verbatim>\<open>nodes_.size()\<close>, a \<^verbatim>\<open>size_t\<close>.\<close>

definition size_NodeMap :: "NodeMap \<Rightarrow> size_t" where
  "size_NodeMap m = of_nat (length (nodes_m m))"

text \<open>The identity of a node that is not registered, \<^verbatim>\<open>id_{-1}\<close>, and what a lookup receives
  when it is passed as the \<^verbatim>\<open>size_t id\<close>.\<close>

definition unassigned :: int where
  "unassigned = - 1"

definition size_t_of_int :: "int \<Rightarrow> size_t" where
  "size_t_of_int i = word_of_int i"

text \<open>Modelled from the spec: the bodies of \<^verbatim>\<open>NodeMap::Create\<close>, \<^verbatim>\<open>NodeMap::GetMutable\<close>,
  \<^verbatim>\<open>NodeMap::Get\<close> and \<^verbatim>\<open>NodeMap::Delete\<close>, which node.h only declares.

  \<open>Create\<close> "allocates storage, assigns the next dense identity, sets the variant tag and its
  default-initialized fields, appends to the owned sequence, returns a mutable reference"; a
  variant is "one of {Function, Value, FunctionBlock}", each built by the constructor that
  node.h gives its class. The specification names no node for \<^verbatim>\<open>kNone\<close>; nothing is created
  then. The identity is the position ("identity = position").\<close>

definition new_node :: "Type \<Rightarrow> Node option" where
  "new_node t =
    (case t of
       kFunction \<Rightarrow> Some Function_init
     | kValue \<Rightarrow> Some Value_init
     | kFunctionBlock \<Rightarrow> Some FunctionBlock_init
     | kNone \<Rightarrow> None)"

definition Create :: "Type \<Rightarrow> NodeMap \<Rightarrow> error + (NodeMap \<times> pointer)" where
  "Create t m =
    (case new_node t of
       None \<Rightarrow> Inl NotSupported
     | Some n \<Rightarrow>
         Inr (m\<lparr>nodes_m := nodes_m m @ [n\<lparr>id_m := int (length (nodes_m m))\<rparr>]\<rparr>,
              length (nodes_m m)))"

text \<open>Modelled from the spec: \<open>get\<close> and \<open>getMutable\<close> fail "with \<open>OutOfRange\<close> when \<open>id\<close> is not
  a previously assigned identity"; there is "no check for \<open>deleted\<close>".\<close>

definition GetMutable :: "size_t \<Rightarrow> NodeMap \<Rightarrow> error + pointer" where
  "GetMutable i m = (if i < size_NodeMap m then Inr (unat i) else Inl OutOfRange)"

definition Get :: "size_t \<Rightarrow> NodeMap \<Rightarrow> error + Node" where
  "Get i m = (if i < size_NodeMap m then Inr (nodes_m m ! unat i) else Inl OutOfRange)"

text \<open>Modelled from the spec: \<open>remove\<close> "marks the node at \<open>id\<close> tombstoned; does not touch
  edges referencing it; does not compact storage". The node at \<open>id\<close> is looked up as
  \<open>getMutable\<close> does.\<close>

definition Delete :: "size_t \<Rightarrow> NodeMap \<Rightarrow> error + NodeMap" where
  "Delete i m =
    (case GetMutable i m of
       Inl e \<Rightarrow> Inl e
     | Inr p \<Rightarrow> Inr (m\<lparr>nodes_m := (nodes_m m)[p := SetDeleted (nodes_m m ! p)]\<rparr>))"

text \<open>The public operations on a registry and, through \<open>GetMutable\<close>, on its nodes.\<close>

datatype op = OpCreate Type | OpDelete size_t | OpNode size_t node_op

fun exec :: "op \<Rightarrow> NodeMap \<Rightarrow> error + NodeMap" where
  "exec (OpCreate t) m = (case Create t m of Inl e \<Rightarrow> Inl e | Inr (m', p) \<Rightarrow> Inr m')"
| "exec (OpDelete i) m = Delete i m"
| "exec (OpNode i f) m =
    (case GetMutable i m of
       Inl e \<Rightarrow> Inl e
     | Inr p \<Rightarrow>
         (case node_exec f (nodes_m m ! p) of
            Inl e \<Rightarrow> Inl e
          | Inr n' \<Rightarrow> Inr (m\<lparr>nodes_m := (nodes_m m)[p := n']\<rparr>)))"

text \<open>A run of operations. An operation that raises an exception leaves the registry as it
  was, and the run goes on; after undefined behaviour (\<open>InvalidDowncast\<close>) nothing is known, and
  the run ends there.\<close>

fun run :: "op list \<Rightarrow> NodeMap \<Rightarrow> error + NodeMap" where
  "run [] m = Inr m"
| "run (x # xs) m =
    (case exec x m of
       Inr m' \<Rightarrow> run xs m'
     | Inl e \<Rightarrow> if e = InvalidDowncast then Inl e else run xs m)"

text \<open>The operations of a run that create a node, and those that set the type of the node
  at position \<open>p\<close>.\<close>

fun creates :: "op \<Rightarrow> bool" where
  "creates (OpCreate t) = (t \<noteq> kNone)"
| "creates x = False"

fun assigns_slot :: "string \<Rightarrow> node_op \<Rightarrow> bool" where
  "assigns_slot name (OpAttrAssign name' a) = (name' = name)"
| "assigns_slot name f = False"

fun sets_type :: "pointer \<Rightarrow> op \<Rightarrow> bool" where
  "sets_type p (OpNode i (OpSetType t)) = (unat i = p)"
| "sets_type p x = False"

section \<open>Properties\<close>

subsection \<open>The attribute bag\<close>

lemma which_T_default: "which (T_default T) = T"
  by (cases T) simp_all

lemma get_or_init_untyped:
  assumes "untyped attrs name"
  shows "get_or_init T name attrs =
    Inr (attrs(name \<mapsto> \<lparr>any_data_m = T_default T, type_index_m = typeid T\<rparr>), T_default T)"
proof (cases "attrs name")
  case None
  then show ?thesis
    by (simp add: get_or_init_def attrs_index_def As_def AnyAttr_init_def boost_get_def
        which_T_default)
next
  case (Some a)
  with assms have "type_index_m a = typeid_AnyAttr"
    by (simp add: untyped_def)
  with Some show ?thesis
    by (cases a) (simp add: get_or_init_def attrs_index_def As_def boost_get_def which_T_default)
qed


lemma holds_fetch_same:
  assumes "holds attrs name T"
  shows "\<exists>a. attrs name = Some a \<and> get_or_init T name attrs = Inr (attrs, any_data_m a)"
proof -
  from assms obtain a where a: "attrs name = Some a" "type_index_m a = typeid T"
      "which (any_data_m a) = T"
    by (auto simp: holds_def split: option.splits)
  then have "attrs(name \<mapsto> a) = attrs" by (simp add: fun_upd_idem)
  with a show ?thesis
    by (simp add: get_or_init_def attrs_index_def As_def boost_get_def)
qed

lemma holds_fetch_other:
  assumes "holds attrs name T" and "U \<noteq> T"
  shows "get_or_init U name attrs = Inl TypeMismatch"
proof -
  from assms obtain a where a: "attrs name = Some a" "type_index_m a = typeid T"
    by (auto simp: holds_def split: option.splits)
  with assms(2) show ?thesis
    by (simp add: get_or_init_def attrs_index_def As_def)
qed



lemma raise_keeps_bag:
  "get_or_init T name attrs = Inl e \<or> store name w attrs = Inl e \<Longrightarrow>
    fst (attrs_index name attrs) = attrs"
  by (cases "attrs name")
    (auto simp: get_or_init_def store_def attrs_index_def As_def boost_get_def AnyAttr_init_def
      which_T_default)

lemma holds_do_access:
  assumes "holds attrs name T" and "do_access x attrs = Inr attrs'"
  shows "holds attrs' name T"
proof (cases x)
  case (Touch n)
  with assms show ?thesis
    by (auto simp: holds_def attrs_index_def split: option.splits if_splits)
next
  case (Fetch U n)
  with assms show ?thesis
    by (auto simp: holds_def get_or_init_def attrs_index_def As_def boost_get_def which_T_default
        split: option.splits if_splits sum.splits prod.splits)
next
  case (Store n w)
  with assms show ?thesis
    by (auto simp: holds_def store_def attrs_index_def As_def boost_get_def assign_def
        which_T_default split: option.splits if_splits sum.splits prod.splits)
qed





text \<open>
  C7. The first typed access to a name returns the value-initialised \<open>T()\<close>: \<open>false\<close>, the
  zero of the three numeric types, the null pointer, the empty string.
\<close>

theorem attr_default:
  assumes "untyped attrs name"
  shows "\<exists>attrs1. get_or_init T name attrs =
    Inr (attrs1,
      case T of
        T_bool \<Rightarrow> any_bool False
      | T_float \<Rightarrow> any_float 0
      | T_int32_t \<Rightarrow> any_int32_t 0
      | T_int64_t \<Rightarrow> any_int64_t 0
      | T_void_ptr \<Rightarrow> any_void_ptr 0
      | T_string \<Rightarrow> any_string [])"
  using get_or_init_untyped [OF assms, of T]
  by (cases T) (simp_all add: nullptr_def)

theorem attr_default_witness:
  "untyped Map.empty ''n''
   \<and> (\<exists>attrs1. get_or_init T_int64_t ''n'' Map.empty = Inr (attrs1, any_int64_t 0))"
proof -
  have u: "untyped Map.empty ''n''"
    by (simp add: untyped_def)
  from u attr_default [OF u, of T_int64_t] show ?thesis
    by simp
qed

subsection \<open>Nodes\<close>

lemma store_fetch:
  assumes "store name w attrs = Inr attrs'"
  shows "get_or_init (which w) name attrs' = Inr (attrs', w)"
proof -
  obtain attrs1 a where ix: "attrs_index name attrs = (attrs1, a)"
    by (cases "attrs_index name attrs")
  with assms obtain a' old where as: "As (which w) a = Inr (a', old)"
      and res: "attrs' = attrs1(name \<mapsto> assign w a')"
    by (auto simp: store_def split: sum.splits)
  from as have "type_index_m a' = typeid (which w)"
    by (auto simp: As_def boost_get_def Let_def which_T_default split: if_splits)
  then have "holds attrs' name (which w)" and "any_data_m (assign w a') = w"
    using res by (simp_all add: holds_def assign_def)
  with holds_fetch_same [of attrs' name "which w"] res show ?thesis
    by simp
qed

lemma store_succeeds:
  "(\<exists>attrs'. store name w attrs = Inr attrs') \<longleftrightarrow>
    (untyped attrs name \<or> holds attrs name (which w))"
  by (cases "attrs name")
    (auto simp: store_def attrs_index_def As_def boost_get_def untyped_def holds_def
      AnyAttr_init_def which_T_default split: if_splits)

text \<open>
  C5. When \<open>SetPbMsg(s)\<close> returns, \<open>pb_msg()\<close> returns \<open>s\<close> and changes nothing; when
  \<open>SetPbDesc(p)\<close> returns, \<open>pb_desc()\<close> returns \<open>p\<close> and changes nothing. Each setter returns
  exactly when its slot was never typed or is typed as the setter types it.
\<close>

theorem pb_roundtrip:
  "(SetPbMsg s n = Inr n' \<longrightarrow> pb_msg n' = Inr (n', any_string s))
   \<and> (SetPbDesc p n = Inr n'' \<longrightarrow> pb_desc n'' = Inr (n'', any_void_ptr p))
   \<and> ((\<exists>n1. SetPbMsg s n = Inr n1) \<longleftrightarrow>
        (untyped (attrs_m n) ''pb_msg'' \<or> holds (attrs_m n) ''pb_msg'' T_string))
   \<and> ((\<exists>n2. SetPbDesc p n = Inr n2) \<longleftrightarrow>
        (untyped (attrs_m n) ''pb_desc'' \<or> holds (attrs_m n) ''pb_desc'' T_void_ptr))"
proof (intro conjI impI)
  assume "SetPbMsg s n = Inr n'"
  then obtain attrs' where st: "store ''pb_msg'' (any_string s) (attrs_m n) = Inr attrs'"
      and n': "n' = n\<lparr>attrs_m := attrs'\<rparr>"
    by (auto simp: SetPbMsg_def split: sum.splits)
  from store_fetch [OF st] n' show "pb_msg n' = Inr (n', any_string s)"
    by (simp add: pb_msg_def)
next
  assume "SetPbDesc p n = Inr n''"
  then obtain attrs' where st: "store ''pb_desc'' (any_void_ptr p) (attrs_m n) = Inr attrs'"
      and n': "n'' = n\<lparr>attrs_m := attrs'\<rparr>"
    by (auto simp: SetPbDesc_def split: sum.splits)
  from store_fetch [OF st] n' show "pb_desc n'' = Inr (n'', any_void_ptr p)"
    by (simp add: pb_desc_def)
next
  have "(\<exists>n1. SetPbMsg s n = Inr n1) \<longleftrightarrow>
      (\<exists>attrs'. store ''pb_msg'' (any_string s) (attrs_m n) = Inr attrs')"
    by (auto simp: SetPbMsg_def split: sum.splits)
  then show "(\<exists>n1. SetPbMsg s n = Inr n1) \<longleftrightarrow>
      (untyped (attrs_m n) ''pb_msg'' \<or> holds (attrs_m n) ''pb_msg'' T_string)"
    by (simp add: store_succeeds)
next
  have "(\<exists>n2. SetPbDesc p n = Inr n2) \<longleftrightarrow>
      (\<exists>attrs'. store ''pb_desc'' (any_void_ptr p) (attrs_m n) = Inr attrs')"
    by (auto simp: SetPbDesc_def split: sum.splits)
  then show "(\<exists>n2. SetPbDesc p n = Inr n2) \<longleftrightarrow>
      (untyped (attrs_m n) ''pb_desc'' \<or> holds (attrs_m n) ''pb_desc'' T_void_ptr)"
    by (simp add: store_succeeds)
qed


theorem pb_roundtrip_witness:
  "(\<exists>n'. SetPbMsg ''msg'' Node_init = Inr n' \<and> pb_msg n' = Inr (n', any_string ''msg''))
   \<and> (\<exists>n''. SetPbDesc 42 Node_init = Inr n'' \<and> pb_desc n'' = Inr (n'', any_void_ptr 42))"
proof -
  have u: "untyped (attrs_m Node_init) ''pb_msg''" "untyped (attrs_m Node_init) ''pb_desc''"
    by (simp_all add: untyped_def Node_init_def)
  note r = pb_roundtrip [of "''msg''" Node_init _ 42]
  from u(1) r obtain n1 where 1: "SetPbMsg ''msg'' Node_init = Inr n1"
    by blast
  from u(2) r obtain n2 where 2: "SetPbDesc 42 Node_init = Inr n2"
    by blast
  from 1 pb_roundtrip [of "''msg''" Node_init n1] have 3: "pb_msg n1 = Inr (n1, any_string ''msg'')"
    by blast
  from 2 pb_roundtrip [of _ Node_init _ 42 n2] have 4: "pb_desc n2 = Inr (n2, any_void_ptr 42)"
    by blast
  from 1 2 3 4 show ?thesis
    by blast
qed

text \<open>
  C6. \<open>SetDeleted()\<close>, called once or more, gives the node with \<open>deleted_\<close> set and every
  other member as it was; \<open>deleted()\<close> is then true, and a further call changes nothing.
\<close>

theorem SetDeleted_only_flag:
  "deleted ((SetDeleted ^^ Suc k) n)
   \<and> (SetDeleted ^^ Suc k) n = n\<lparr>deleted_m := True\<rparr>
   \<and> SetDeleted (SetDeleted n) = SetDeleted n
   \<and> Node_id ((SetDeleted ^^ Suc k) n) = Node_id n
   \<and> Node_name ((SetDeleted ^^ Suc k) n) = Node_name n
   \<and> Node_type ((SetDeleted ^^ Suc k) n) = Node_type n
   \<and> attrs_m ((SetDeleted ^^ Suc k) n) = attrs_m n
   \<and> inlinks ((SetDeleted ^^ Suc k) n) = inlinks n
   \<and> outlinks ((SetDeleted ^^ Suc k) n) = outlinks n
   \<and> class_m ((SetDeleted ^^ Suc k) n) = class_m n"
proof -
  have eq: "(SetDeleted ^^ Suc k) n = n\<lparr>deleted_m := True\<rparr>"
  proof (induction k)
    case 0
    show ?case by (simp add: SetDeleted_def)
  next
    case (Suc k)
    have "(SetDeleted ^^ Suc (Suc k)) n = SetDeleted ((SetDeleted ^^ Suc k) n)"
      by simp
    also have "\<dots> = SetDeleted (n\<lparr>deleted_m := True\<rparr>)"
      by (simp only: Suc.IH)
    also have "\<dots> = n\<lparr>deleted_m := True\<rparr>"
      by (simp add: SetDeleted_def)
    finally show ?case .
  qed
  have idem: "SetDeleted (SetDeleted n) = SetDeleted n"
    by (simp add: SetDeleted_def)
  show ?thesis
    unfolding eq using idem
    by (simp add: deleted_def Node_id_def Node_name_def Node_type_def)
qed

text \<open>
  C4. \<open>repr()\<close> of a \<open>FunctionBlock\<close> is \<open>block-\<close> followed by the decimal identity, whatever
  its name, so also when no name was set; \<open>repr()\<close> of a node of any other class is the name
  followed by the decimal identity in parentheses.
\<close>

theorem repr_label:
  "(class_m n = FunctionBlock_class sg \<longrightarrow> repr n = ''block-'' @ to_string (Node_id n))
   \<and> ((\<forall>g. class_m n \<noteq> FunctionBlock_class g) \<longrightarrow>
        repr n = Node_name n @ ''('' @ to_string (Node_id n) @ '')'')"
  by (cases "class_m n") (simp_all add: repr_def FunctionBlock_repr_def Node_repr_def)

theorem repr_label_witness:
  "class_m (FunctionBlock_init\<lparr>id_m := 12\<rparr>) = FunctionBlock_class []
   \<and> Node_name (FunctionBlock_init\<lparr>id_m := 12\<rparr>) = []
   \<and> repr (FunctionBlock_init\<lparr>id_m := 12\<rparr>) = ''block-12''
   \<and> (\<forall>g. class_m (SetName ''conv'' (Function_init\<lparr>id_m := 3\<rparr>)) \<noteq> FunctionBlock_class g)
   \<and> repr (SetName ''conv'' (Function_init\<lparr>id_m := 3\<rparr>)) = ''conv(3)''"
proof -
  have c: "class_m (FunctionBlock_init\<lparr>id_m := 12\<rparr>) = FunctionBlock_class []"
    "Node_name (FunctionBlock_init\<lparr>id_m := 12\<rparr>) = []"
    "Node_id (FunctionBlock_init\<lparr>id_m := 12\<rparr>) = 12"
    by (simp_all add: FunctionBlock_init_def Node_init_def SetType_def Node_name_def Node_id_def)
  have d: "\<forall>g. class_m (SetName ''conv'' (Function_init\<lparr>id_m := 3\<rparr>)) \<noteq> FunctionBlock_class g"
    "Node_name (SetName ''conv'' (Function_init\<lparr>id_m := 3\<rparr>)) = ''conv''"
    "Node_id (SetName ''conv'' (Function_init\<lparr>id_m := 3\<rparr>)) = 3"
    by (simp_all add: Function_init_def Node_init_def SetType_def SetName_def Node_name_def
        Node_id_def)
  have t: "to_string 12 = ''12''" "to_string 3 = ''3''"
    by code_simp+
  from repr_label [of "FunctionBlock_init\<lparr>id_m := 12\<rparr>" "[]"] c t
  have 1: "repr (FunctionBlock_init\<lparr>id_m := 12\<rparr>) = ''block-12''"
    by simp
  from repr_label [of "SetName ''conv'' (Function_init\<lparr>id_m := 3\<rparr>)"] d t
  have 2: "repr (SetName ''conv'' (Function_init\<lparr>id_m := 3\<rparr>)) = ''conv(3)''"
    by simp
  from c d 1 2 show ?thesis
    by simp
qed

text \<open>
  C8. A node whose class does not override \<open>dot_attrs()\<close>, a plain \<open>Node\<close> or a
  \<open>FunctionBlock\<close>, renders exactly the pair \<open>style\<close>, \<open>filled\<close>, whatever the two overrides do.
\<close>

theorem dot_attrs_default:
  assumes "class_m n = Node_class \<or> class_m n = FunctionBlock_class sg"
  shows "dot_attrs Value_dot_attrs Function_dot_attrs n = [(''style'', ''filled'')]
    \<and> (''style'', ''filled'') \<in> set (dot_attrs Value_dot_attrs Function_dot_attrs n)"
  using assms by (auto simp: dot_attrs_def Node_dot_attrs_def)

theorem dot_attrs_default_witness:
  "(class_m FunctionBlock_init = Node_class \<or> class_m FunctionBlock_init = FunctionBlock_class [])
   \<and> dot_attrs (\<lambda>n. []) (\<lambda>n. []) FunctionBlock_init = [(''style'', ''filled'')]"
proof -
  have c: "class_m FunctionBlock_init = Node_class \<or> class_m FunctionBlock_init = FunctionBlock_class []"
    by (simp add: FunctionBlock_init_def Node_init_def SetType_def)
  from c dot_attrs_default [OF c, of "\<lambda>n. []" "\<lambda>n. []"] show ?thesis
    by simp
qed

text \<open>
  C10. At most one of \<open>IsFunction()\<close>, \<open>IsValue()\<close>, \<open>IsFunctionBlock()\<close> is true of a node,
  and none is when its type is \<open>kNone\<close>.
\<close>

theorem type_checks_exclusive:
  "length (filter (\<lambda>check. check n) [IsFunction, IsValue, IsFunctionBlock]) \<le> 1
   \<and> (Node_type n = kNone \<longrightarrow> \<not> IsFunction n \<and> \<not> IsValue n \<and> \<not> IsFunctionBlock n)"
  by (cases "type_m n") (simp_all add: IsFunction_def IsValue_def IsFunctionBlock_def Node_type_def)

theorem type_checks_exclusive_witness:
  "Node_type Node_init = kNone
   \<and> \<not> IsFunction Node_init \<and> \<not> IsValue Node_init \<and> \<not> IsFunctionBlock Node_init"
proof -
  have k: "Node_type Node_init = kNone"
    by (simp add: Node_type_def Node_init_def)
  from k type_checks_exclusive [of Node_init] show ?thesis
    by blast
qed

lemma holds_node_exec:
  assumes "holds (attrs_m n) name T" and "node_exec f n = Inr n'" and "\<not> assigns_slot name f"
  shows "holds (attrs_m n') name T"
proof (cases f)
  case (OpAttr x)
  with assms(2) obtain attrs' where "do_access x (attrs_m n) = Inr attrs'" "attrs_m n' = attrs'"
    by (auto split: sum.splits)
  with assms(1) holds_do_access show ?thesis by metis
next
  case (OpAttrAssign name' a)
  with assms(3) have "name' \<noteq> name"
    by simp
  with assms(1,2) OpAttrAssign show ?thesis
    by (auto simp: attr_assign_def attr_def attrs_index_def holds_def split: option.splits)
next
  case (OpSetPbDesc pb)
  with assms(2) obtain attrs' where
    "do_access (Store ''pb_desc'' (any_void_ptr pb)) (attrs_m n) = Inr attrs'" "attrs_m n' = attrs'"
    by (auto simp: SetPbDesc_def split: sum.splits)
  with assms(1) holds_do_access show ?thesis by metis
next
  case OpPbDesc
  with assms(2) obtain attrs' where
    "do_access (Fetch T_void_ptr ''pb_desc'') (attrs_m n) = Inr attrs'" "attrs_m n' = attrs'"
    by (auto simp: pb_desc_def split: sum.splits)
  with assms(1) holds_do_access show ?thesis by metis
next
  case (OpSetPbMsg s)
  with assms(2) obtain attrs' where
    "do_access (Store ''pb_msg'' (any_string s)) (attrs_m n) = Inr attrs'" "attrs_m n' = attrs'"
    by (auto simp: SetPbMsg_def split: sum.splits)
  with assms(1) holds_do_access show ?thesis by metis
next
  case OpPbMsg
  with assms(2) obtain attrs' where
    "do_access (Fetch T_string ''pb_msg'') (attrs_m n) = Inr attrs'" "attrs_m n' = attrs'"
    by (auto simp: pb_msg_def split: sum.splits)
  with assms(1) holds_do_access show ?thesis by metis
next
  case OpSetDeleted
  with assms show ?thesis by (auto simp: SetDeleted_def)
next
  case (OpSetName s)
  with assms show ?thesis by (auto simp: SetName_def)
next
  case (OpSetType t)
  with assms show ?thesis by (auto simp: SetType_def)
next
  case (OpSetInlinks l)
  with assms show ?thesis by auto
next
  case (OpSetOutlinks l)
  with assms show ?thesis by auto
next
  case (OpSetDataType d)
  with assms show ?thesis by (auto simp: SetDataType_def split: Subclass.splits)
next
  case (OpSetDims d)
  with assms show ?thesis by (auto simp: SetDims_def split: Subclass.splits)
next
  case (OpSetDevice d)
  with assms show ?thesis by (auto simp: SetDevice_def split: Subclass.splits)
next
  case (OpSetFuncType ft)
  with assms show ?thesis by (auto simp: SetFuncType_def split: Subclass.splits)
next
  case (OpSetSubgraph g)
  with assms show ?thesis by (auto simp: set_subgraph_def split: Subclass.splits)
qed

lemma holds_node_run:
  "holds (attrs_m n) name T \<Longrightarrow> node_run fs n = Inr n' \<Longrightarrow>
    \<forall>f \<in> set fs. \<not> assigns_slot name f \<Longrightarrow> holds (attrs_m n') name T"
proof (induction fs arbitrary: n)
  case Nil
  then show ?case by simp
next
  case (Cons f fs)
  from Cons.prems(3) have rest: "\<forall>g \<in> set fs. \<not> assigns_slot name g"
    and here: "\<not> assigns_slot name f"
    by simp_all
  show ?case
  proof (cases "node_exec f n")
    case (Inl e)
    with Cons.prems(2) have "node_run fs n = Inr n'"
      by (simp split: if_splits)
    with Cons.IH Cons.prems(1) rest show ?thesis by blast
  next
    case (Inr n1)
    from Cons.prems(1) Inr here have "holds (attrs_m n1) name T"
      by (rule holds_node_exec)
    moreover from Inr Cons.prems(2) have "node_run fs n1 = Inr n'"
      by simp
    ultimately show ?thesis using Cons.IH rest by blast
  qed
qed

lemma pb_desc_on_null_slot:
  assumes "null_pointer_slot (attrs_m n) ''pb_desc''"
  shows "pb_desc n = Inr (n, any_void_ptr nullptr)"
    and "holds (attrs_m n) ''pb_desc'' T_void_ptr"
proof -
  from assms obtain a where a: "attrs_m n ''pb_desc'' = Some a"
      "type_index_m a = typeid T_void_ptr" "any_data_m a = any_void_ptr nullptr"
    by (auto simp: null_pointer_slot_def split: option.splits)
  then show h: "holds (attrs_m n) ''pb_desc'' T_void_ptr"
    by (simp add: holds_def)
  from holds_fetch_same [OF h] a show "pb_desc n = Inr (n, any_void_ptr nullptr)"
    by (auto simp: pb_desc_def)
qed

lemma pb_desc_null_only_then:
  assumes "pb_desc n = Inr (n', any_void_ptr nullptr)"
  shows "untyped (attrs_m n) ''pb_desc'' \<or> null_pointer_slot (attrs_m n) ''pb_desc''"
  using assms
  by (cases "attrs_m n ''pb_desc''")
    (auto simp: pb_desc_def get_or_init_def attrs_index_def As_def boost_get_def untyped_def
      null_pointer_slot_def split: if_splits sum.splits)

text \<open>
  C9, as the code has it. On a node whose \<open>pb_desc\<close> slot was never accessed under a type (a
  newly constructed node is one), or is typed as a pointer and holds the null pointer,
  \<open>pb_desc()\<close> does not raise: it returns the null pointer, changes nothing but the attributes,
  and leaves the slot typed as a pointer. After any later run of operations on the node in which
  the slot is not overwritten as a whole by an assignment through \<open>attr("pb_desc")\<close>, an access
  to the slot under another type raises \<open>TypeMismatch\<close>.
\<close>

theorem pb_desc_unset:
  assumes "untyped (attrs_m n) ''pb_desc'' \<or> null_pointer_slot (attrs_m n) ''pb_desc''"
  shows "\<exists>n'. pb_desc n = Inr (n', any_void_ptr nullptr)
    \<and> n' = n\<lparr>attrs_m := attrs_m n'\<rparr>
    \<and> map_option type_index_m (attrs_m n' ''pb_desc'') = Some (typeid T_void_ptr)
    \<and> (\<forall>fs n2 U. node_run fs n' = Inr n2 \<and> (\<forall>f \<in> set fs. \<not> assigns_slot ''pb_desc'' f)
            \<and> U \<noteq> T_void_ptr \<longrightarrow>
          get_or_init U ''pb_desc'' (attrs_m n2) = Inl TypeMismatch)"
proof -
  have "\<exists>n'. pb_desc n = Inr (n', any_void_ptr nullptr) \<and> n' = n\<lparr>attrs_m := attrs_m n'\<rparr>
      \<and> holds (attrs_m n') ''pb_desc'' T_void_ptr"
    using assms
  proof
    assume u: "untyped (attrs_m n) ''pb_desc''"
    let ?attrs1 = "(attrs_m n)(''pb_desc'' \<mapsto>
        \<lparr>any_data_m = T_default T_void_ptr, type_index_m = typeid T_void_ptr\<rparr>)"
    from get_or_init_untyped [OF u, of T_void_ptr]
    have "pb_desc n = Inr (n\<lparr>attrs_m := ?attrs1\<rparr>, any_void_ptr nullptr)"
      by (simp add: pb_desc_def)
    moreover have "holds (attrs_m (n\<lparr>attrs_m := ?attrs1\<rparr>)) ''pb_desc'' T_void_ptr"
      by (simp add: holds_def)
    ultimately show ?thesis
      by (intro exI [of _ "n\<lparr>attrs_m := ?attrs1\<rparr>"]) simp
  next
    assume "null_pointer_slot (attrs_m n) ''pb_desc''"
    from pb_desc_on_null_slot [OF this] show ?thesis
      by (intro exI [of _ n]) simp
  qed
  then obtain n' where r: "pb_desc n = Inr (n', any_void_ptr nullptr)"
      and fr: "n' = n\<lparr>attrs_m := attrs_m n'\<rparr>"
      and h: "holds (attrs_m n') ''pb_desc'' T_void_ptr"
    by blast
  have later: "get_or_init U ''pb_desc'' (attrs_m n2) = Inl TypeMismatch"
    if "node_run fs n' = Inr n2" and "\<forall>f \<in> set fs. \<not> assigns_slot ''pb_desc'' f"
      and "U \<noteq> T_void_ptr" for fs n2 U
  proof -
    from h that(1,2) have "holds (attrs_m n2) ''pb_desc'' T_void_ptr"
      by (rule holds_node_run)
    then show ?thesis using that(3) by (rule holds_fetch_other)
  qed
  from h have "map_option type_index_m (attrs_m n' ''pb_desc'') = Some (typeid T_void_ptr)"
    by (auto simp: holds_def split: option.splits)
  with r fr later show ?thesis
    by blast
qed

theorem pb_desc_unset_witness:
  "untyped (attrs_m Function_init) ''pb_desc''
   \<and> (\<exists>n'. pb_desc Function_init = Inr (n', any_void_ptr 0)
        \<and> null_pointer_slot (attrs_m n') ''pb_desc''
        \<and> pb_desc n' = Inr (n', any_void_ptr 0)
        \<and> (\<exists>n2. node_run [OpSetName ''f'', OpAttrAssign ''other'' AnyAttr_init] n' = Inr n2
              \<and> (\<forall>f \<in> set [OpSetName ''f'', OpAttrAssign ''other'' AnyAttr_init].
                    \<not> assigns_slot ''pb_desc'' f)
              \<and> get_or_init T_string ''pb_desc'' (attrs_m n2) = Inl TypeMismatch))"
proof -
  let ?fs = "[OpSetName ''f'', OpAttrAssign ''other'' AnyAttr_init]"
  have u: "untyped (attrs_m Function_init) ''pb_desc''"
    by (simp add: untyped_def Function_init_def Node_init_def SetType_def)
  then have u': "untyped (attrs_m Function_init) ''pb_desc''
      \<or> null_pointer_slot (attrs_m Function_init) ''pb_desc''"
    by simp
  from pb_desc_unset [OF u'] obtain n' where
    a: "pb_desc Function_init = Inr (n', any_void_ptr nullptr)"
    and t: "map_option type_index_m (attrs_m n' ''pb_desc'') = Some (typeid T_void_ptr)"
    and b: "\<forall>fs n2 U. node_run fs n' = Inr n2 \<and> (\<forall>f \<in> set fs. \<not> assigns_slot ''pb_desc'' f)
            \<and> U \<noteq> T_void_ptr \<longrightarrow>
          get_or_init U ''pb_desc'' (attrs_m n2) = Inl TypeMismatch"
    by blast
  from a have n': "n' = Function_init\<lparr>attrs_m := (attrs_m Function_init)(''pb_desc'' \<mapsto>
      \<lparr>any_data_m = any_void_ptr nullptr, type_index_m = typeid T_void_ptr\<rparr>)\<rparr>"
    using get_or_init_untyped [OF u, of T_void_ptr] by (simp add: pb_desc_def)
  then have z: "null_pointer_slot (attrs_m n') ''pb_desc''"
    by (simp add: null_pointer_slot_def)
  then have z': "untyped (attrs_m n') ''pb_desc'' \<or> null_pointer_slot (attrs_m n') ''pb_desc''"
    by simp
  from pb_desc_unset [OF z'] obtain n'' where
    c: "pb_desc n' = Inr (n'', any_void_ptr nullptr)"
    by blast
  from pb_desc_on_null_slot(1) [OF z] c have c': "pb_desc n' = Inr (n', any_void_ptr nullptr)"
    by simp
  have r: "node_run ?fs n' = Inr (attr_assign ''other'' AnyAttr_init (SetName ''f'' n'))"
    by simp
  have s: "\<forall>f \<in> set ?fs. \<not> assigns_slot ''pb_desc'' f"
    by simp
  have "T_string \<noteq> T_void_ptr"
    by simp
  with b r s have "get_or_init T_string ''pb_desc''
      (attrs_m (attr_assign ''other'' AnyAttr_init (SetName ''f'' n'))) = Inl TypeMismatch"
    by blast
  with u a z c' r s show ?thesis
    by (auto simp: nullptr_def)
qed

text \<open>
  The claim C9 as it is worded fails twice. On a new node, on which \<open>SetPbDesc\<close> was never
  called, \<open>attr("pb_desc").Bool()\<close> types the slot as a \<open>bool\<close>, and \<open>pb_desc()\<close> then raises.
  And the typing by \<open>pb_desc()\<close> is not permanent: after \<open>pb_desc()\<close> on a new node, the
  assignment \<open>attr("pb_desc") = AnyAttr()\<close> makes the slot untyped again, and the access
  \<open>attr("pb_desc").Bool()\<close> returns \<open>false\<close> where the claim has it raise.
\<close>

theorem pb_desc_counterexample:
  "(case node_exec (OpAttr (Fetch T_bool ''pb_desc'')) Node_init of
      Inl e \<Rightarrow> False
    | Inr n1 \<Rightarrow> pb_desc n1 = Inl TypeMismatch)
   \<and> (case pb_desc Node_init of
        Inl e \<Rightarrow> False
      | Inr (n1, v) \<Rightarrow>
          (case node_run [OpAttrAssign ''pb_desc'' AnyAttr_init] n1 of
             Inl e \<Rightarrow> False
           | Inr n2 \<Rightarrow>
               (case get_or_init T_bool ''pb_desc'' (attrs_m n2) of
                  Inl e \<Rightarrow> False
                | Inr (attrs', w) \<Rightarrow> w = any_bool False)))"
  by (simp add: Node_init_def get_or_init_def attrs_index_def As_def boost_get_def AnyAttr_init_def
      pb_desc_def attr_assign_def attr_def)

subsection \<open>The registry\<close>

lemma GetMutable_pos:
  assumes "GetMutable i m = Inr p"
  shows "p = unat i \<and> p < length (nodes_m m)"
proof -
  from assms have p: "p = unat i" and lt: "i < size_NodeMap m"
    by (auto simp: GetMutable_def split: if_splits)
  from lt have "unat i < unat (of_nat (length (nodes_m m)) :: size_t)"
    by (simp add: size_NodeMap_def word_less_nat_alt)
  also have "\<dots> \<le> length (nodes_m m)"
    by (simp add: unat_of_nat)
  finally show ?thesis using p by simp
qed

lemma node_exec_id:
  "node_exec f n = Inr n' \<Longrightarrow> id_m n' = id_m n"
  by (cases f)
    (auto simp: SetPbDesc_def pb_desc_def SetPbMsg_def pb_msg_def SetDeleted_def SetName_def
      SetType_def SetDataType_def SetDims_def SetDevice_def SetFuncType_def set_subgraph_def
      attr_assign_def attr_def attrs_index_def
      split: sum.splits Subclass.splits option.splits)

lemma node_exec_type:
  "node_exec f n = Inr n' \<Longrightarrow> \<forall>t. f \<noteq> OpSetType t \<Longrightarrow> type_m n' = type_m n"
  by (cases f)
    (auto simp: SetPbDesc_def pb_desc_def SetPbMsg_def pb_msg_def SetDeleted_def SetName_def
      SetDataType_def SetDims_def SetDevice_def SetFuncType_def set_subgraph_def
      attr_assign_def attr_def attrs_index_def
      split: sum.splits Subclass.splits option.splits)

lemma Create_result:
  assumes "Create t m = Inr (m1, p)"
  shows "t \<noteq> kNone" and "p = length (nodes_m m)"
    and "length (nodes_m m1) = Suc (length (nodes_m m))"
    and "id_m (nodes_m m1 ! p) = int p" and "type_m (nodes_m m1 ! p) = t"
    and "\<forall>q < length (nodes_m m). nodes_m m1 ! q = nodes_m m ! q"
  using assms
  by (cases t;
      auto simp: Create_def new_node_def Function_init_def Value_init_def FunctionBlock_init_def
        SetType_def Node_init_def nth_append)+

lemma Create_succeeds:
  "t \<noteq> kNone \<Longrightarrow> \<exists>m1. Create t m = Inr (m1, length (nodes_m m))"
  by (cases t) (simp_all add: Create_def new_node_def)

lemma exec_length:
  assumes "exec x m = Inr m'"
  shows "length (nodes_m m') = length (nodes_m m) + (if creates x then 1 else 0)"
proof (cases x)
  case (OpCreate t)
  with assms obtain p where "Create t m = Inr (m', p)"
    by (auto split: sum.splits)
  from Create_result [OF this] OpCreate show ?thesis by simp
next
  case (OpDelete i)
  with assms show ?thesis
    by (auto simp: Delete_def split: sum.splits)
next
  case (OpNode i f)
  with assms show ?thesis
    by (auto split: sum.splits)
qed

lemma exec_failed_create:
  assumes "exec x m = Inl e"
  shows "\<not> creates x"
proof (cases x)
  case (OpCreate t)
  with assms have "t = kNone"
    using Create_succeeds [of t m] by (auto split: sum.splits)
  with OpCreate show ?thesis by simp
qed simp_all

lemma exec_id:
  assumes "exec x m = Inr m'" and "q < length (nodes_m m)"
  shows "id_m (nodes_m m' ! q) = id_m (nodes_m m ! q)"
proof (cases x)
  case (OpCreate t)
  with assms(1) obtain p where "Create t m = Inr (m', p)"
    by (auto split: sum.splits)
  from Create_result [OF this] assms(2) show ?thesis by simp
next
  case (OpDelete i)
  with assms(1) obtain p where p: "GetMutable i m = Inr p"
      and m': "m' = m\<lparr>nodes_m := (nodes_m m)[p := SetDeleted (nodes_m m ! p)]\<rparr>"
    by (auto simp: Delete_def split: sum.splits)
  from GetMutable_pos [OF p] m' show ?thesis
    by (cases "p = q") (simp_all add: SetDeleted_def)
next
  case (OpNode i f)
  with assms(1) obtain p n' where p: "GetMutable i m = Inr p"
      and f: "node_exec f (nodes_m m ! p) = Inr n'"
      and m': "m' = m\<lparr>nodes_m := (nodes_m m)[p := n']\<rparr>"
    by (auto split: sum.splits)
  from node_exec_id [OF f] m' assms(2) show ?thesis
    by (cases "p = q") simp_all
qed

lemma exec_type:
  assumes "exec x m = Inr m'" and "q < length (nodes_m m)" and "\<not> sets_type q x"
  shows "type_m (nodes_m m' ! q) = type_m (nodes_m m ! q)"
proof (cases x)
  case (OpCreate t)
  with assms(1) obtain p where "Create t m = Inr (m', p)"
    by (auto split: sum.splits)
  from Create_result [OF this] assms(2) show ?thesis by simp
next
  case (OpDelete i)
  with assms(1) obtain p where p: "GetMutable i m = Inr p"
      and m': "m' = m\<lparr>nodes_m := (nodes_m m)[p := SetDeleted (nodes_m m ! p)]\<rparr>"
    by (auto simp: Delete_def split: sum.splits)
  from GetMutable_pos [OF p] m' show ?thesis
    by (cases "p = q") (simp_all add: SetDeleted_def)
next
  case (OpNode i f)
  with assms(1) obtain p n' where p: "GetMutable i m = Inr p"
      and f: "node_exec f (nodes_m m ! p) = Inr n'"
      and m': "m' = m\<lparr>nodes_m := (nodes_m m)[p := n']\<rparr>"
    by (auto split: sum.splits)
  show ?thesis
  proof (cases "p = q")
    case True
    with GetMutable_pos [OF p] assms(3) OpNode have "\<forall>t. f \<noteq> OpSetType t"
      by auto
    from node_exec_type [OF f this] m' assms(2) True show ?thesis
      by simp
  next
    case False
    with m' show ?thesis by simp
  qed
qed

lemma run_length:
  "run xs m = Inr m' \<Longrightarrow> length (nodes_m m') = length (nodes_m m) + length (filter creates xs)"
proof (induction xs arbitrary: m)
  case Nil
  then show ?case by simp
next
  case (Cons x xs)
  show ?case
  proof (cases "exec x m")
    case (Inl e)
    with Cons.prems have "run xs m = Inr m'"
      by (simp split: if_splits)
    from Cons.IH [OF this] exec_failed_create [OF Inl] show ?thesis by simp
  next
    case (Inr m1)
    with Cons.prems have "run xs m1 = Inr m'" by simp
    from Cons.IH [OF this] exec_length [OF Inr] show ?thesis by simp
  qed
qed

lemma run_id_type:
  "run xs m = Inr m' \<Longrightarrow> q < length (nodes_m m) \<Longrightarrow>
    id_m (nodes_m m' ! q) = id_m (nodes_m m ! q)
    \<and> ((\<forall>x \<in> set xs. \<not> sets_type q x) \<longrightarrow> type_m (nodes_m m' ! q) = type_m (nodes_m m ! q))"
proof (induction xs arbitrary: m)
  case Nil
  then show ?case by simp
next
  case (Cons x xs)
  show ?case
  proof (cases "exec x m")
    case (Inl e)
    with Cons.prems have "run xs m = Inr m'"
      by (simp split: if_splits)
    from Cons.IH [OF this Cons.prems(2)] show ?thesis by simp
  next
    case (Inr m1)
    with Cons.prems have r: "run xs m1 = Inr m'" by simp
    from exec_length [OF Inr] Cons.prems(2) have q: "q < length (nodes_m m1)" by simp
    from Cons.IH [OF r q] exec_id [OF Inr Cons.prems(2)] exec_type [OF Inr Cons.prems(2)]
    show ?thesis by simp
  qed
qed

lemma run_dense:
  "run xs m = Inr m' \<Longrightarrow> \<forall>q < length (nodes_m m). id_m (nodes_m m ! q) = int q \<Longrightarrow>
    \<forall>q < length (nodes_m m'). id_m (nodes_m m' ! q) = int q"
proof (induction xs arbitrary: m)
  case Nil
  then show ?case by simp
next
  case (Cons x xs)
  show ?case
  proof (cases "exec x m")
    case (Inl e)
    with Cons.prems have "run xs m = Inr m'"
      by (simp split: if_splits)
    from Cons.IH [OF this Cons.prems(2)] show ?thesis .
  next
    case (Inr m1)
    with Cons.prems have r: "run xs m1 = Inr m'" by simp
    have "\<forall>q < length (nodes_m m1). id_m (nodes_m m1 ! q) = int q"
    proof (intro allI impI)
      fix q assume q: "q < length (nodes_m m1)"
      show "id_m (nodes_m m1 ! q) = int q"
      proof (cases "q < length (nodes_m m)")
        case True
        with exec_id [OF Inr True] Cons.prems(2) show ?thesis by simp
      next
        case False
        with q exec_length [OF Inr] have c: "creates x" and qq: "q = length (nodes_m m)"
          by (auto split: if_splits)
        from c obtain t where x: "x = OpCreate t" by (cases x) auto
        with Inr obtain p where "Create t m = Inr (m1, p)"
          by (auto split: sum.splits)
        from Create_result(2,4) [OF this] qq show ?thesis by simp
      qed
    qed
    from Cons.IH [OF r this] show ?thesis .
  qed
qed

text \<open>
  C2, as the code has it. A node that \<open>Create\<close> returned has the position as its identity and
  the requested type. After any run of public operations on the registry and its nodes the
  identity is the same, and the type is the same when the run has no \<open>SetType\<close> on that node.
\<close>

theorem id_and_type_kept:
  assumes "Create t m = Inr (m1, p)" and "run xs m1 = Inr m2"
  shows "p < length (nodes m2)
    \<and> Node_id (nodes m1 ! p) = int p
    \<and> Node_type (nodes m1 ! p) = t
    \<and> Node_id (nodes m2 ! p) = int p
    \<and> ((\<forall>x \<in> set xs. \<not> sets_type p x) \<longrightarrow> Node_type (nodes m2 ! p) = t)"
proof -
  note c = Create_result [OF assms(1)]
  from c(2,3) have p: "p < length (nodes_m m1)"
    by simp
  from run_length [OF assms(2)] p have "p < length (nodes_m m2)"
    by simp
  with c(4,5) run_id_type [OF assms(2) p] show ?thesis
    by (simp add: nodes_def Node_id_def Node_type_def)
qed

theorem id_and_type_kept_witness:
  "\<exists>m1 m2. Create kFunction NodeMap_init = Inr (m1, 0)
    \<and> run [OpNode 0 (OpSetName ''f''), OpDelete 0, OpNode 1 (OpSetType kValue)] m1 = Inr m2
    \<and> (\<forall>x \<in> set [OpNode 0 (OpSetName ''f''), OpDelete 0, OpNode 1 (OpSetType kValue)].
          \<not> sets_type 0 x)
    \<and> Node_id (nodes m2 ! 0) = 0 \<and> Node_type (nodes m2 ! 0) = kFunction"
proof -
  let ?m1 = "NodeMap_init\<lparr>nodes_m := [Function_init\<lparr>id_m := 0\<rparr>]\<rparr>"
  let ?m2 = "NodeMap_init\<lparr>nodes_m := [SetDeleted (SetName ''f'' (Function_init\<lparr>id_m := 0\<rparr>))]\<rparr>"
  let ?xs = "[OpNode 0 (OpSetName ''f''), OpDelete 0, OpNode 1 (OpSetType kValue)]"
  have c: "Create kFunction NodeMap_init = Inr (?m1, 0)"
    by (simp add: Create_def new_node_def NodeMap_init_def)
  have r: "run ?xs ?m1 = Inr ?m2"
    by (simp add: GetMutable_def Delete_def size_NodeMap_def NodeMap_init_def)
  have s: "\<forall>x \<in> set ?xs. \<not> sets_type 0 x"
    by simp
  from id_and_type_kept [OF c r] s
  have "Node_id (nodes ?m2 ! 0) = 0 \<and> Node_type (nodes ?m2 ! 0) = kFunction"
    by simp
  with c r s show ?thesis
    by blast
qed

text \<open>
  The claim C2 as it is worded fails for the type: \<open>SetType\<close> is a public member, and on a node
  created as a \<open>Function\<close> the call \<open>SetType(kValue)\<close> changes what \<open>type()\<close> returns.
\<close>

theorem type_write_once_counterexample:
  "(case Create kFunction NodeMap_init of
      Inl e \<Rightarrow> False
    | Inr (m1, p) \<Rightarrow>
        (case run [OpNode 0 (OpSetType kValue)] m1 of
           Inl e \<Rightarrow> False
         | Inr m2 \<Rightarrow>
             Node_type (nodes m1 ! p) = kFunction \<and> Node_type (nodes m2 ! p) = kValue))"
  by (simp add: Create_def new_node_def NodeMap_init_def GetMutable_def size_NodeMap_def
      Function_init_def SetType_def Node_type_def nodes_def)

text \<open>
  C3. In a registry built from the empty one by a run of operations in which \<open>N\<close> nodes were
  created, with \<open>N\<close> in the range of \<open>size_t\<close>: \<open>size()\<close> is \<open>N\<close>; for every \<open>i < N\<close> both lookups
  succeed and give the node at position \<open>i\<close>, whose identity is \<open>i\<close>; for every \<open>i \<ge> N\<close>, and for
  the identity of an unregistered node, both lookups fail with \<open>OutOfRange\<close>.
\<close>

theorem registry_dense:
  assumes "run xs NodeMap_init = Inr m" and "N = length (filter creates xs)" and "N < 2 ^ 64"
  shows "size_NodeMap m = of_nat N \<and> unat (size_NodeMap m) = N
    \<and> (\<forall>i < N. GetMutable (of_nat i) m = Inr i \<and> Get (of_nat i) m = Inr (nodes m ! i)
          \<and> Node_id (nodes m ! i) = int i)
    \<and> (\<forall>i. N \<le> unat i \<longrightarrow> GetMutable i m = Inl OutOfRange \<and> Get i m = Inl OutOfRange)
    \<and> GetMutable (size_t_of_int unassigned) m = Inl OutOfRange
    \<and> Get (size_t_of_int unassigned) m = Inl OutOfRange"
proof -
  from run_length [OF assms(1)] assms(2) have len: "length (nodes_m m) = N"
    by (simp add: NodeMap_init_def)
  then have sz: "size_NodeMap m = of_nat N"
    by (simp add: size_NodeMap_def)
  from assms(3) have un: "unat (of_nat N :: size_t) = N"
    by (simp add: unat_of_nat)
  have dense: "\<forall>q < length (nodes_m m). id_m (nodes_m m ! q) = int q"
    using assms(1) by (rule run_dense) (simp add: NodeMap_init_def)
  have inside: "GetMutable (of_nat i) m = Inr i \<and> Get (of_nat i) m = Inr (nodes m ! i)
      \<and> Node_id (nodes m ! i) = int i" if "i < N" for i
  proof -
    from that assms(3) have ui: "unat (of_nat i :: size_t) = i"
      by (simp add: unat_of_nat)
    with that un have "(of_nat i :: size_t) < of_nat N"
      by (simp add: word_less_nat_alt)
    with ui sz dense len that show ?thesis
      by (simp add: GetMutable_def Get_def nodes_def Node_id_def)
  qed
  have outside: "GetMutable i m = Inl OutOfRange \<and> Get i m = Inl OutOfRange" if "N \<le> unat i" for i
  proof -
    from that un have "\<not> i < of_nat N"
      by (simp add: word_less_nat_alt)
    with sz show ?thesis
      by (simp add: GetMutable_def Get_def)
  qed
  have "unat (size_t_of_int unassigned) = 2 ^ 64 - 1"
    by (simp add: size_t_of_int_def unassigned_def unsigned_minus_1_eq_mask mask_eq_exp_minus_1)
  with assms(3) have "N \<le> unat (size_t_of_int unassigned)"
    by simp
  from outside [OF this] sz un inside outside show ?thesis
    by simp
qed

theorem registry_dense_witness:
  "\<exists>m. run [OpCreate kFunction, OpCreate kNone, OpCreate kValue, OpDelete 0] NodeMap_init = Inr m
    \<and> 2 = length (filter creates [OpCreate kFunction, OpCreate kNone, OpCreate kValue, OpDelete 0])
    \<and> (2::nat) < 2 ^ 64
    \<and> size_NodeMap m = 2
    \<and> GetMutable 0 m = Inr 0 \<and> GetMutable 1 m = Inr 1
    \<and> Get 2 m = Inl OutOfRange
    \<and> Get (size_t_of_int unassigned) m = Inl OutOfRange"
proof -
  let ?xs = "[OpCreate kFunction, OpCreate kNone, OpCreate kValue, OpDelete 0]"
  let ?m = "NodeMap_init\<lparr>nodes_m := [SetDeleted (Function_init\<lparr>id_m := 0\<rparr>), Value_init\<lparr>id_m := 1\<rparr>]\<rparr>"
  have r: "run ?xs NodeMap_init = Inr ?m"
    by (simp add: Create_def new_node_def GetMutable_def Delete_def size_NodeMap_def
        NodeMap_init_def)
  have n: "2 = length (filter creates ?xs)"
    by simp
  have b: "(2::nat) < 2 ^ 64"
    by simp
  note d = registry_dense [OF r n b]
  from d have 1: "size_NodeMap ?m = 2"
    by simp
  from d have "\<forall>i < 2. GetMutable (of_nat i) ?m = Inr i"
    by blast
  from this [rule_format, of 0] this [rule_format, of 1]
  have 2: "GetMutable 0 ?m = Inr 0 \<and> GetMutable 1 ?m = Inr 1"
    by simp
  from d have "\<forall>i. 2 \<le> unat i \<longrightarrow> Get i ?m = Inl OutOfRange"
    by blast
  then have 3: "Get 2 ?m = Inl OutOfRange"
    by simp
  from d have 4: "Get (size_t_of_int unassigned) ?m = Inl OutOfRange"
    by blast
  from r n b 1 2 3 4 show ?thesis
    by blast
qed

end
